theory Spec2Isabelle
  imports Main
begin

section \<open>Format negotiation\<close>

text \<open>
  \<^verbatim>\<open>startRecording\<close> (SessionActions.js, lines 490-506) probes the runtime with
  \<^verbatim>\<open>MediaRecorder.isTypeSupported\<close> over a fixed list and keeps the first format
  that is supported; \<^verbatim>\<open>mimeType\<close> stays the empty string when none is, and the
  recorder is then created without options. The runtime's answer is the parameter
  \<open>supported\<close>.
\<close>

definition formats :: "string list" where
  "formats =
     [''audio/wav'', ''audio/webm;codecs=opus'', ''audio/webm'',
      ''audio/mp3'', ''audio/ogg;codecs=opus'', ''audio/ogg'']"

text \<open>The \<^verbatim>\<open>for ... of\<close> loop with its \<^verbatim>\<open>break\<close>.\<close>

fun firstSupported :: "(string \<Rightarrow> bool) \<Rightarrow> string list \<Rightarrow> string" where
  "firstSupported supported [] = ''''"
| "firstSupported supported (format # rest) =
     (if supported format then format else firstSupported supported rest)"

definition negotiate :: "(string \<Rightarrow> bool) \<Rightarrow> string" where
  "negotiate supported = firstSupported supported formats"

section \<open>Data of the voice controls\<close>

text \<open>
  \<^verbatim>\<open>VoiceControls\<close> is a React function component. Its state variables
  (\<^verbatim>\<open>isRecording\<close>, \<^verbatim>\<open>isProcessing\<close>, \<^verbatim>\<open>autoMode\<close>, ...) are constants of one
  render: every function the component body defines (\<^verbatim>\<open>handleVoiceRecord\<close>,
  \<^verbatim>\<open>startRecording\<close>, \<^verbatim>\<open>processRecording\<close>, \<^verbatim>\<open>scheduleAutoListening\<close> and the
  callbacks they install) closes over the values of the render that created it, while the
  refs (\<^verbatim>\<open>mediaRecorderRef\<close>, \<^verbatim>\<open>audioChunksRef\<close>, ...) and the state setters act on
  the component's current store. A \<open>render\<close> holds the values a closure reads; the
  functions below take the render of their closure and the current store.

  Left out: the level monitor (\<^verbatim>\<open>audioLevel\<close>, \<^verbatim>\<open>recordingQuality\<close>, the animation
  frame), which only feeds the display; the application's \<^verbatim>\<open>isListening\<close>, which
  \<^verbatim>\<open>onToggleListening\<close> flips and the voice controls never read; and unmounting, after
  which nothing runs.
\<close>

record render =
  r_isRecording :: bool
  r_isProcessing :: bool
  r_autoMode :: bool

text \<open>
  A \<^verbatim>\<open>MediaRecorder\<close> object: its \<^verbatim>\<open>state\<close> (\<^verbatim>\<open>pause\<close> is never called, so
  \<^verbatim>\<open>'paused'\<close> does not occur), whether \<^verbatim>\<open>stop()\<close> was called and the
  \<^verbatim>\<open>stop\<close> event is still to be dispatched, the format it was created with, and the
  render whose \<^verbatim>\<open>processRecording\<close> its \<^verbatim>\<open>onstop\<close> handler calls.
\<close>

datatype recorder_state = Inactive | Recording

record recorder =
  rec_state :: recorder_state
  rec_stopping :: bool
  rec_mimeType :: string
  rec_onstop :: render

record blob =
  blob_data :: string
  blob_type :: string

text \<open>The form data posted to \<^verbatim>\<open>/api/voice/transcribe\<close>.\<close>

record request =
  req_audio_file :: blob
  req_fileName :: string
  req_session_id :: string

text \<open>
  The promise returned by one call of \<^verbatim>\<open>synthesizeAndPlayVoice\<close>: waiting for the
  synthesis service, waiting for the audio element, resolved, or rejected.
\<close>

datatype speech_job = AwaitingSynthesis | Playing | Resolved | Rejected string

text \<open>
  The store: props, React state, refs, the browser objects the component created
  (recorders, interval and timeout timers, requests in flight), what it sent out
  (\<open>requests\<close> to the transcription service, \<open>delivered\<close> calls of
  \<^verbatim>\<open>onVoiceMessage\<close>), the speech promises of the application, and the clock in ms.
  \<open>autoListenTimeoutRef\<close> holds the pending timeout with its due time and the render of
  its callback; \<open>recordingTimerRef\<close> says whether the interval the ref names is running,
  and \<open>strayTimers\<close> counts running intervals that the ref no longer names.
\<close>

record state =
  sessionId :: "string option"
  onVoiceMessage :: bool
  voiceEnabled :: bool
  isRecording :: bool
  recordingTime :: nat
  voiceError :: "string option"
  isProcessing :: bool
  autoMode :: bool
  mediaRecorderRef :: "nat option"
  audioChunksRef :: "string list"
  recordingTimerRef :: bool
  autoListenTimeoutRef :: "(nat \<times> render) option"
  streamRef :: bool
  recorders :: "recorder list"
  strayTimers :: nat
  inflight :: "render list"
  requests :: "request list"
  delivered :: "string list"
  speechJobs :: "speech_job list"
  now :: nat

text \<open>The browser: which formats it records, and \<^verbatim>\<open>atob\<close> (\<open>None\<close> when it throws).\<close>

record runtime =
  isTypeSupported :: "string \<Rightarrow> bool"
  atob :: "string \<Rightarrow> string option"

text \<open>What the environment does to one attempt to create and start a recorder.\<close>

datatype fault = NoFault | ConstructorThrows string | StartThrows string

text \<open>
  The outcome of the transcription request: \<^verbatim>\<open>fetch\<close> rejects, the response is not
  \<^verbatim>\<open>ok\<close> (status and body text), \<^verbatim>\<open>response.json()\<close> rejects, or the body is
  parsed and \<^verbatim>\<open>data.transcription\<close> is read (\<open>None\<close> when absent or null).
\<close>

datatype transcribe_response =
    FetchFails string
  | NotOk string string
  | JsonFails string
  | Json "string option"

text \<open>The same for the synthesis request; the body carries \<^verbatim>\<open>audio_data\<close> and \<^verbatim>\<open>audio_format\<close>.\<close>

datatype synth_response =
    SynthFetchFails string
  | SynthNotOk
  | SynthJsonFails string
  | SynthJson "string option" string

text \<open>
  What the audio element does after \<^verbatim>\<open>audio.play()\<close>: it plays to the end, it fires
  \<^verbatim>\<open>error\<close>, or the promise of \<^verbatim>\<open>play()\<close> rejects.
\<close>

datatype audio_event = Ended | ErrorEvent string | PlayRejected string

datatype permission = Granted | Denied string

section \<open>JavaScript values\<close>

text \<open>A string or null/undefined used as a condition: the empty string is false too.\<close>

fun truthy :: "string option \<Rightarrow> bool" where
  "truthy None = False"
| "truthy (Some t) = (t \<noteq> [])"

text \<open>
  \<^verbatim>\<open>String.prototype.trim\<close>. Characters are bytes here, so of the white space and line
  terminators of JavaScript only those below 256 occur.
\<close>

definition isWhiteSpace :: "char \<Rightarrow> bool" where
  "isWhiteSpace c =
     (c \<in> {CHR 0x09, CHR 0x0A, CHR 0x0B, CHR 0x0C, CHR 0x0D, CHR 0x20, CHR 0xA0})"

definition trim :: "string \<Rightarrow> string" where
  "trim t = rev (dropWhile isWhiteSpace (rev (dropWhile isWhiteSpace t)))"

section \<open>Recording\<close>

definition render_now :: "state \<Rightarrow> render" where
  "render_now s =
     \<lparr>r_isRecording = isRecording s, r_isProcessing = isProcessing s, r_autoMode = autoMode s\<rparr>"

text \<open>\<^verbatim>\<open>mediaRecorderRef.current && mediaRecorderRef.current.state === 'recording'\<close>\<close>

definition refRecording :: "state \<Rightarrow> bool" where
  "refRecording s =
     (case mediaRecorderRef s of
        None \<Rightarrow> False
      | Some i \<Rightarrow> i < length (recorders s) \<and> rec_state (recorders s ! i) = Recording)"

text \<open>
  \<^verbatim>\<open>MediaRecorder.stop()\<close>: the state becomes \<^verbatim>\<open>'inactive'\<close> at once and the
  \<^verbatim>\<open>stop\<close> event is dispatched later.
\<close>

definition stopRecorder :: "nat \<Rightarrow> recorder list \<Rightarrow> recorder list" where
  "stopRecorder i rs = rs[i := (rs ! i)\<lparr>rec_state := Inactive, rec_stopping := True\<rparr>]"

text \<open>
  \<^verbatim>\<open>stopRecording\<close> (lines 560-581). \<^verbatim>\<open>stop()\<close> is called on a recording recorder
  only, so it does not throw; \<^verbatim>\<open>clearInterval\<close> ends the interval the ref names.
\<close>

definition stopRecording :: "state \<Rightarrow> state" where
  "stopRecording s =
     (let s1 = (case mediaRecorderRef s of
                  None \<Rightarrow> s
                | Some i \<Rightarrow>
                    if refRecording s then s\<lparr>recorders := stopRecorder i (recorders s)\<rparr> else s)
      in s1\<lparr>recordingTimerRef := False\<rparr>)"

text \<open>
  \<^verbatim>\<open>startRecording\<close> (lines 479-558), called from a closure of render \<open>r\<close>. The new
  recorder's \<^verbatim>\<open>onstop\<close> calls the \<^verbatim>\<open>processRecording\<close> of the same render.
  \<^verbatim>\<open>setInterval\<close> overwrites \<^verbatim>\<open>recordingTimerRef\<close> without clearing it: an interval
  still running then goes on as a stray one.
\<close>

definition startRecording :: "runtime \<Rightarrow> fault \<Rightarrow> render \<Rightarrow> state \<Rightarrow> bool \<times> state" where
  "startRecording rt fault r s =
     (if \<not> streamRef s then (False, s\<lparr>voiceError := Some ''Microphone not available''\<rparr>)
      else
        let s1 = s\<lparr>audioChunksRef := []\<rparr>;
            mimeType = negotiate (isTypeSupported rt)
        in case fault of
             ConstructorThrows msg \<Rightarrow>
               (False, s1\<lparr>voiceError := Some (''Recording failed: '' @ msg)\<rparr>)
           | StartThrows msg \<Rightarrow>
               (False,
                s1\<lparr>recorders := recorders s1 @
                      [\<lparr>rec_state = Inactive, rec_stopping = False,
                        rec_mimeType = mimeType, rec_onstop = r\<rparr>],
                    mediaRecorderRef := Some (length (recorders s1)),
                    voiceError := Some (''Recording failed: '' @ msg)\<rparr>)
           | NoFault \<Rightarrow>
               (True,
                s1\<lparr>recorders := recorders s1 @
                      [\<lparr>rec_state = Recording, rec_stopping = False,
                        rec_mimeType = mimeType, rec_onstop = r\<rparr>],
                    mediaRecorderRef := Some (length (recorders s1)),
                    strayTimers := (if recordingTimerRef s1 then strayTimers s1 + 1
                                    else strayTimers s1),
                    recordingTimerRef := True\<rparr>))"

text \<open>
  \<^verbatim>\<open>handleVoiceRecord\<close> (lines 703-728). The branch is chosen by the \<^verbatim>\<open>isRecording\<close>
  of the closure's render. \<^verbatim>\<open>startRecording\<close> has no \<^verbatim>\<open>await\<close> inside, so the whole
  handler runs before any other event.
\<close>

definition handleVoiceRecord :: "runtime \<Rightarrow> fault \<Rightarrow> render \<Rightarrow> state \<Rightarrow> state" where
  "handleVoiceRecord rt fault r s =
     (if \<not> truthy (sessionId s) then s\<lparr>voiceError := Some ''No active session''\<rparr>
      else if r_isRecording r then stopRecording (s\<lparr>isRecording := False\<rparr>)
      else
        case startRecording rt fault r
               (s\<lparr>isRecording := True, recordingTime := 0, voiceError := None\<rparr>) of
          (started, s1) \<Rightarrow> if started then s1 else s1\<lparr>isRecording := False\<rparr>)"

text \<open>
  The callback of the 1 Hz interval (lines 537-550). \<^verbatim>\<open>requestData()\<close> changes nothing
  here: its chunk arrives as a later \<^verbatim>\<open>dataavailable\<close> event.
\<close>

definition recordingTick :: "state \<Rightarrow> state" where
  "recordingTick s =
     (if 60 \<le> recordingTime s then (stopRecording s)\<lparr>recordingTime := 60\<rparr>
      else s\<lparr>recordingTime := recordingTime s + 1\<rparr>)"

section \<open>Auto-listening\<close>

text \<open>
  \<^verbatim>\<open>scheduleAutoListening\<close> (lines 686-701): a pending timeout is cleared and replaced.
  \<open>autoListenCallback\<close> is the function given to \<^verbatim>\<open>setTimeout\<close>; it reads the state
  variables of the render that scheduled it.
\<close>

definition scheduleAutoListening :: "render \<Rightarrow> state \<Rightarrow> state" where
  "scheduleAutoListening r s =
     (if \<not> r_autoMode r then s
      else s\<lparr>autoListenTimeoutRef := Some (now s + 3000, r)\<rparr>)"

definition autoListenCallback :: "runtime \<Rightarrow> fault \<Rightarrow> render \<Rightarrow> state \<Rightarrow> state" where
  "autoListenCallback rt fault r s =
     (if r_autoMode r \<and> \<not> r_isRecording r \<and> \<not> r_isProcessing r
      then handleVoiceRecord rt fault r s else s)"

section \<open>Processing a recording\<close>

definition fallbackNoSpeech :: string where
  "fallbackNoSpeech =
     ''I'm listening but couldn't hear you clearly. Could you please repeat that?''"

definition fallbackError :: string where
  "fallbackError = ''I'm having trouble hearing you. Could you please try again?''"

text \<open>\<^verbatim>\<open>if (onVoiceMessage) onVoiceMessage(m)\<close>\<close>

definition deliver :: "string \<Rightarrow> state \<Rightarrow> state" where
  "deliver m s = (if onVoiceMessage s then s\<lparr>delivered := delivered s @ [m]\<rparr> else s)"

text \<open>The blob and file name of lines 600-618.\<close>

definition makeBlob :: "(string \<Rightarrow> bool) \<Rightarrow> string list \<Rightarrow> blob \<times> string" where
  "makeBlob supported chunks =
     (if supported ''audio/wav''
      then (\<lparr>blob_data = concat chunks, blob_type = ''audio/wav''\<rparr>, ''recording.wav'')
      else if supported ''audio/mp3''
      then (\<lparr>blob_data = concat chunks, blob_type = ''audio/mp3''\<rparr>, ''recording.mp3'')
      else (\<lparr>blob_data = concat chunks, blob_type = ''audio/webm''\<rparr>, ''recording.webm''))"

text \<open>The \<^verbatim>\<open>catch\<close> and \<^verbatim>\<open>finally\<close> blocks of \<^verbatim>\<open>processRecording\<close> (lines 663-682).\<close>

definition processRecording_catch :: "string \<Rightarrow> state \<Rightarrow> state" where
  "processRecording_catch msg s =
     deliver fallbackError (s\<lparr>voiceError := Some (''Failed to process voice: '' @ msg)\<rparr>)"

definition processRecording_finally :: "render \<Rightarrow> state \<Rightarrow> state" where
  "processRecording_finally r s =
     (let s1 = s\<lparr>isProcessing := False, recordingTime := 0, audioChunksRef := []\<rparr>
      in if r_autoMode r then scheduleAutoListening r s1 else s1)"

text \<open>
  \<^verbatim>\<open>processRecording\<close> (lines 583-683) up to its first \<^verbatim>\<open>await\<close>: it ends there when
  nothing was recorded or the blob is shorter than 100 bytes, and otherwise has sent the
  request and waits for the response.
\<close>

definition processRecording :: "runtime \<Rightarrow> render \<Rightarrow> state \<Rightarrow> state" where
  "processRecording rt r s =
     (if audioChunksRef s = [] then
        let s1 = s\<lparr>voiceError := Some ''No audio recorded. Please try again.'',
                   isProcessing := False\<rparr>
        in if r_autoMode r then scheduleAutoListening r s1 else s1
      else
        let s1 = s\<lparr>isProcessing := True\<rparr>
        in case makeBlob (isTypeSupported rt) (audioChunksRef s1) of
             (audioBlob, fileName) \<Rightarrow>
               if length (blob_data audioBlob) < 100
               then processRecording_finally r
                      (processRecording_catch ''Audio recording too short or empty'' s1)
               else s1\<lparr>requests := requests s1 @
                           [\<lparr>req_audio_file = audioBlob, req_fileName = fileName,
                             req_session_id =
                               (case sessionId s1 of
                                  None \<Rightarrow> ''default''
                                | Some i \<Rightarrow> if i = [] then ''default'' else i)\<rparr>],
                        inflight := inflight s1 @ [r]\<rparr>)"

text \<open>The rest of \<^verbatim>\<open>processRecording\<close>, run when the request settles (lines 641-682).\<close>

definition processRecording_continue :: "render \<Rightarrow> transcribe_response \<Rightarrow> state \<Rightarrow> state" where
  "processRecording_continue r resp s =
     processRecording_finally r
       (case resp of
          FetchFails msg \<Rightarrow> processRecording_catch msg s
        | NotOk status errorText \<Rightarrow>
            processRecording_catch (''Transcription failed: '' @ status @ '' - '' @ errorText) s
        | JsonFails msg \<Rightarrow> processRecording_catch msg s
        | Json transcription \<Rightarrow>
            (case transcription of
               None \<Rightarrow>
                 (deliver fallbackNoSpeech s)
                   \<lparr>voiceError := Some
                      ''No speech detected. Using fallback message to continue conversation.''\<rparr>
             | Some t \<Rightarrow>
                 if t \<noteq> [] \<and> trim t \<noteq> [] then (deliver t s)\<lparr>voiceError := None\<rparr>
                 else (deliver fallbackNoSpeech s)
                   \<lparr>voiceError := Some
                      ''No speech detected. Using fallback message to continue conversation.''\<rparr>))"

section \<open>Speaking\<close>

text \<open>
  \<^verbatim>\<open>playAudioFromBase64\<close> (part_002, lines 517-548): the executor rejects when
  decoding throws, and otherwise the promise waits for the audio element.
\<close>

definition playAudioFromBase64 :: "runtime \<Rightarrow> string \<Rightarrow> string \<Rightarrow> speech_job" where
  "playAudioFromBase64 rt audioData format =
     (case atob rt audioData of
        None \<Rightarrow> Rejected ''InvalidCharacterError''
      | Some bytes \<Rightarrow> Playing)"

fun audioSettles :: "audio_event \<Rightarrow> speech_job" where
  "audioSettles Ended = Resolved"
| "audioSettles (ErrorEvent e) = Rejected e"
| "audioSettles (PlayRejected e) = Rejected e"

text \<open>
  \<^verbatim>\<open>synthesizeAndPlayVoice\<close> (part_002, lines 412-432) up to its first \<^verbatim>\<open>await\<close>, and
  its rest. The promise of \<^verbatim>\<open>playAudioFromBase64\<close> is returned, not awaited, inside the
  \<^verbatim>\<open>try\<close>: the promise of \<^verbatim>\<open>synthesizeAndPlayVoice\<close> settles as that one does.
\<close>

definition synthesizeAndPlayVoice :: "bool \<Rightarrow> string option \<Rightarrow> speech_job" where
  "synthesizeAndPlayVoice enabled sid =
     (if \<not> enabled \<or> \<not> truthy sid then Resolved else AwaitingSynthesis)"

fun synthesizeAndPlayVoice_continue :: "runtime \<Rightarrow> synth_response \<Rightarrow> speech_job" where
  "synthesizeAndPlayVoice_continue rt (SynthFetchFails msg) = Resolved"
| "synthesizeAndPlayVoice_continue rt SynthNotOk = Resolved"
| "synthesizeAndPlayVoice_continue rt (SynthJsonFails msg) = Resolved"
| "synthesizeAndPlayVoice_continue rt (SynthJson audio_data audio_format) =
     (case audio_data of
        None \<Rightarrow> Resolved
      | Some d \<Rightarrow> if d = [] then Resolved else playAudioFromBase64 rt d audio_format)"

section \<open>Events\<close>

text \<open>
  The component runs on one thread: each event below runs its handler to the end (or to
  the next \<^verbatim>\<open>await\<close>) on the store. An event that cannot occur in the store it meets
  (a click on the disabled button, a timeout that is not due, the response of a request
  that was not sent) leaves it unchanged.
  \<^item> \<open>ClickRecord\<close>: the microphone button, disabled while \<^verbatim>\<open>isProcessing\<close> or without a
    stream; its handler is the \<^verbatim>\<open>handleVoiceRecord\<close> of the latest render.
  \<^item> \<open>ClickAutoMode\<close>: either of the two auto-listening toggles.
  \<^item> \<open>DataAvailable\<close>, \<open>RecorderError\<close>, \<open>StopEvent\<close>: the events of recorder \<open>i\<close>. On
    an error the browser stops the recorder itself and dispatches \<^verbatim>\<open>stop\<close> after
    \<^verbatim>\<open>error\<close>.
  \<^item> \<open>TranscribeResponse\<close>: request \<open>k\<close> in flight settles.
  \<^item> \<open>RecordingTick\<close>: a running 1 Hz interval fires.
  \<^item> \<open>AutoListenTimeout\<close>: the pending timeout fires, no sooner than it is due.
  \<^item> \<open>Elapse\<close>: time passes.
  \<^item> \<open>Speak\<close>: the application calls \<^verbatim>\<open>synthesizeAndPlayVoice\<close> with a reply;
    \<open>SynthesisResponse\<close> and \<open>AudioEvent\<close> settle the synthesis request and the
    playback of speech job \<open>k\<close>. The callers' \<^verbatim>\<open>then\<close> callbacks do not reach the voice
    controls: \<^verbatim>\<open>sendVoiceMessage\<close> logs a line, and \<^verbatim>\<open>sendMessage\<close> sets the
    application's \<^verbatim>\<open>isListening\<close> in voice interface mode, where the voice controls
    are not mounted.
\<close>

datatype event =
    ClickRecord fault
  | ClickAutoMode
  | DataAvailable nat string
  | RecorderError nat string
  | StopEvent nat
  | TranscribeResponse nat transcribe_response
  | RecordingTick
  | AutoListenTimeout fault
  | Elapse nat
  | Speak
  | SynthesisResponse nat synth_response
  | AudioEvent nat audio_event

fun step :: "runtime \<Rightarrow> event \<Rightarrow> state \<Rightarrow> state" where
  "step rt (ClickRecord fault) s =
     (if isProcessing s \<or> \<not> streamRef s then s
      else handleVoiceRecord rt fault (render_now s) s)"
| "step rt ClickAutoMode s = s\<lparr>autoMode := \<not> autoMode s\<rparr>"
| "step rt (DataAvailable i d) s =
     (if i < length (recorders s)
         \<and> (rec_state (recorders s ! i) = Recording \<or> rec_stopping (recorders s ! i))
         \<and> d \<noteq> []
      then s\<lparr>audioChunksRef := audioChunksRef s @ [d]\<rparr> else s)"
| "step rt (RecorderError i msg) s =
     (if i < length (recorders s) \<and> rec_state (recorders s ! i) = Recording
      then s\<lparr>recorders := stopRecorder i (recorders s),
             voiceError := Some (''Recording error: '' @ msg)\<rparr>
      else s)"
| "step rt (StopEvent i) s =
     (if i < length (recorders s) \<and> rec_stopping (recorders s ! i)
      then processRecording rt (rec_onstop (recorders s ! i))
             (s\<lparr>recorders := (recorders s)[i := (recorders s ! i)\<lparr>rec_stopping := False\<rparr>]\<rparr>)
      else s)"
| "step rt (TranscribeResponse k resp) s =
     (if k < length (inflight s)
      then processRecording_continue (inflight s ! k) resp
             (s\<lparr>inflight := take k (inflight s) @ drop (Suc k) (inflight s)\<rparr>)
      else s)"
| "step rt RecordingTick s =
     (if recordingTimerRef s \<or> 0 < strayTimers s then recordingTick s else s)"
| "step rt (AutoListenTimeout fault) s =
     (case autoListenTimeoutRef s of
        None \<Rightarrow> s
      | Some (due, r) \<Rightarrow>
          if due \<le> now s
          then autoListenCallback rt fault r (s\<lparr>autoListenTimeoutRef := None\<rparr>)
          else s)"
| "step rt (Elapse d) s = s\<lparr>now := now s + d\<rparr>"
| "step rt Speak s =
     s\<lparr>speechJobs := speechJobs s @ [synthesizeAndPlayVoice (voiceEnabled s) (sessionId s)]\<rparr>"
| "step rt (SynthesisResponse k resp) s =
     (if k < length (speechJobs s) \<and> speechJobs s ! k = AwaitingSynthesis
      then s\<lparr>speechJobs := (speechJobs s)[k := synthesizeAndPlayVoice_continue rt resp]\<rparr>
      else s)"
| "step rt (AudioEvent k ev) s =
     (if k < length (speechJobs s) \<and> speechJobs s ! k = Playing
      then s\<lparr>speechJobs := (speechJobs s)[k := audioSettles ev]\<rparr>
      else s)"

definition run :: "runtime \<Rightarrow> event list \<Rightarrow> state \<Rightarrow> state" where
  "run rt evs s = fold (step rt) evs s"

text \<open>
  The store after mounting (lines 335-352) and the effect of lines 355-363:
  \<^verbatim>\<open>initializeMediaRecorder\<close> (lines 387-445) runs only if \<^verbatim>\<open>sessionId\<close> is set, and
  then the stream is there when either \<^verbatim>\<open>getUserMedia\<close> call succeeded; without a
  session the microphone is not asked for and there is neither a stream nor an error.
\<close>

definition init :: "string option \<Rightarrow> bool \<Rightarrow> permission \<Rightarrow> state" where
  "init sid callback mic =
     \<lparr>sessionId = sid, onVoiceMessage = callback, voiceEnabled = True,
      isRecording = False, recordingTime = 0,
      voiceError =
        (if truthy sid
         then (case mic of
                 Granted \<Rightarrow> None
               | Denied msg \<Rightarrow>
                   Some (''Microphone access denied: '' @ msg @
                         ''. Please enable microphone permissions.''))
         else None),
      isProcessing = False, autoMode = False,
      mediaRecorderRef = None, audioChunksRef = [], recordingTimerRef = False,
      autoListenTimeoutRef = None,
      streamRef = (truthy sid \<and> (case mic of Granted \<Rightarrow> True | Denied msg \<Rightarrow> False)),
      recorders = [], strayTimers = 0, inflight = [], requests = [], delivered = [],
      speechJobs = [], now = 0\<rparr>"

section \<open>Sample runs\<close>

text \<open>
  Four browsers: one that records WebM only, one that records Ogg only, one that records
  MP3 and Ogg only, and one that records MP4 only, which is none of the candidates. Of \<^verbatim>\<open>atob\<close>
  the runs below need two values: \<^verbatim>\<open>atob("SGk=")\<close> is \<^verbatim>\<open>"Hi"\<close>, and
  \<^verbatim>\<open>atob("%%%")\<close> throws.
\<close>

definition webm_runtime :: runtime where
  "webm_runtime =
     \<lparr>isTypeSupported = (\<lambda>f. f = ''audio/webm;codecs=opus'' \<or> f = ''audio/webm''),
      atob = (\<lambda>d. if d = ''SGk='' then Some ''Hi'' else None)\<rparr>"

definition ogg_runtime :: runtime where
  "ogg_runtime =
     \<lparr>isTypeSupported = (\<lambda>f. f = ''audio/ogg;codecs=opus'' \<or> f = ''audio/ogg''),
      atob = (\<lambda>d. if d = ''SGk='' then Some ''Hi'' else None)\<rparr>"

definition mp3_runtime :: runtime where
  "mp3_runtime =
     \<lparr>isTypeSupported = (\<lambda>f. f = ''audio/mp3'' \<or> f = ''audio/ogg''),
      atob = (\<lambda>d. if d = ''SGk='' then Some ''Hi'' else None)\<rparr>"

definition mp4_runtime :: runtime where
  "mp4_runtime =
     \<lparr>isTypeSupported = (\<lambda>f. f = ''audio/mp4''),
      atob = (\<lambda>d. if d = ''SGk='' then Some ''Hi'' else None)\<rparr>"

text \<open>The component mounted in a session, with a consumer and a microphone.\<close>

definition mounted :: state where
  "mounted = init (Some ''session-1'') True Granted"

text \<open>
  One capture by hand: the user starts a recording, recorder \<open>i\<close> delivers \<open>n\<close> bytes,
  the user stops, and the \<^verbatim>\<open>stop\<close> event arrives.
\<close>

definition capture :: "nat \<Rightarrow> nat \<Rightarrow> event list" where
  "capture i n =
     [ClickRecord NoFault, DataAvailable i (replicate n CHR ''a''), ClickRecord NoFault,
      StopEvent i]"

text \<open>
  A whole cycle with auto-listening switched on first: a capture of 200 bytes that the
  service transcribes as \<^verbatim>\<open>hello\<close>.
\<close>

definition auto_cycle :: "event list" where
  "auto_cycle = ClickAutoMode # capture 0 200 @ [TranscribeResponse 0 (Json (Some ''hello''))]"

text \<open>
  After such a cycle, at time 0, the user starts a recording at 1000, and the timeout
  scheduled by the cycle fires at 3000.
\<close>

definition overlap_run :: "event list" where
  "overlap_run =
     auto_cycle @ [Elapse 1000, ClickRecord NoFault, Elapse 2000, AutoListenTimeout NoFault]"

section \<open>Basic facts\<close>

lemmas handler_defs =
  handleVoiceRecord_def startRecording_def stopRecording_def render_now_def refRecording_def
  stopRecorder_def recordingTick_def scheduleAutoListening_def autoListenCallback_def
  deliver_def makeBlob_def processRecording_catch_def processRecording_finally_def
  processRecording_def processRecording_continue_def playAudioFromBase64_def
  synthesizeAndPlayVoice_def

lemmas sample_defs =
  webm_runtime_def mounted_def capture_def init_def
  negotiate_def formats_def fallbackError_def fallbackNoSpeech_def

lemma run_Nil: "run rt [] s = s"
  by (simp add: run_def)

lemma run_Cons: "run rt (ev # evs) s = run rt evs (step rt ev s)"
  by (simp add: run_def)

lemma run_append: "run rt (evs @ evs') s = run rt evs' (run rt evs s)"
  by (simp add: run_def)

text \<open>A property that every event keeps holds after every run.\<close>

lemma run_invariant:
  assumes "P s" and "\<And>ev s. ev \<in> set evs \<Longrightarrow> P s \<Longrightarrow> P (step rt ev s)"
  shows "P (run rt evs s)"
  using assms
proof (induction evs arbitrary: s)
  case Nil
  then show ?case by (simp add: run_Nil)
next
  case (Cons ev evs)
  have "P (step rt ev s)" using Cons.prems by simp
  then show ?case using Cons.IH Cons.prems(2) by (simp add: run_Cons)
qed

lemma firstSupported_nth:
  "i < length fs \<Longrightarrow> supported (fs ! i) \<Longrightarrow> \<forall>j<i. \<not> supported (fs ! j) \<Longrightarrow>
   firstSupported supported fs = fs ! i"
proof (induction fs arbitrary: i)
  case Nil
  then show ?case by simp
next
  case (Cons f fs)
  show ?case
  proof (cases i)
    case 0
    with Cons.prems show ?thesis by simp
  next
    case (Suc k)
    with Cons.prems have "\<not> supported f" by auto
    moreover from Suc Cons.prems have "k < length fs" "supported (fs ! k)" by auto
    moreover from Suc Cons.prems have "\<forall>j<k. \<not> supported (fs ! j)" by auto
    ultimately show ?thesis using Cons.IH [of k] Suc by simp
  qed
qed

lemma firstSupported_cases:
  "firstSupported supported fs = [] \<or> firstSupported supported fs \<in> set fs"
  by (induction fs) auto

lemma in_set_updateD: "x \<in> set (xs[i := y]) \<Longrightarrow> x = y \<or> x \<in> set xs"
  using set_update_subset_insert [of xs i y] by auto

section \<open>The negotiated format\<close>

lemma negotiated_step:
  assumes "\<forall>x\<in>set (recorders s). rec_mimeType x = negotiate (isTypeSupported rt)"
  shows "\<forall>x\<in>set (recorders (step rt ev s)). rec_mimeType x = negotiate (isTypeSupported rt)"
  using assms
  by (cases ev)
     (auto simp: handler_defs Let_def
           split: option.splits fault.splits transcribe_response.splits prod.splits
           dest!: in_set_updateD)

lemma negotiated_run:
  "list_all (\<lambda>x. rec_mimeType x = negotiate (isTypeSupported rt))
     (recorders (run rt evs (init sid callback mic)))"
proof -
  have "\<forall>x\<in>set (recorders (run rt evs (init sid callback mic))).
          rec_mimeType x = negotiate (isTypeSupported rt)"
  proof (rule run_invariant)
    show "\<forall>x\<in>set (recorders (init sid callback mic)).
          rec_mimeType x = negotiate (isTypeSupported rt)"
      by (simp add: init_def)
  next
    fix ev and s :: state
    assume "\<forall>x\<in>set (recorders s). rec_mimeType x = negotiate (isTypeSupported rt)"
    then show "\<forall>x\<in>set (recorders (step rt ev s)). rec_mimeType x = negotiate (isTypeSupported rt)"
      by (rule negotiated_step)
  qed
  then show ?thesis by (simp add: list_all_iff)
qed


text \<open>
  C5. The candidates are tried in the order WAV, Opus-in-WebM, WebM, MP3, Opus-in-Ogg,
  Ogg, and the first one the runtime supports is the negotiated format; a runtime that
  supports nothing but MP3 and Ogg gets MP3. In every run, every recorder is created with
  the negotiated format.
\<close>

theorem negotiate_first_supported:
  "formats = [''audio/wav'', ''audio/webm;codecs=opus'', ''audio/webm'',
              ''audio/mp3'', ''audio/ogg;codecs=opus'', ''audio/ogg'']
   \<and> (i < length formats \<and> isTypeSupported rt (formats ! i)
        \<and> (\<forall>j<i. \<not> isTypeSupported rt (formats ! j))
        \<longrightarrow> negotiate (isTypeSupported rt) = formats ! i)
   \<and> (isTypeSupported rt ''audio/mp3''
        \<and> (\<forall>f. isTypeSupported rt f \<longrightarrow>
               f = ''audio/mp3'' \<or> f = ''audio/ogg;codecs=opus'' \<or> f = ''audio/ogg'')
        \<longrightarrow> negotiate (isTypeSupported rt) = ''audio/mp3'')
   \<and> list_all (\<lambda>x. rec_mimeType x = negotiate (isTypeSupported rt))
        (recorders (run rt evs (init sid callback mic)))"
proof (intro conjI impI)
  show "formats = [''audio/wav'', ''audio/webm;codecs=opus'', ''audio/webm'',
                   ''audio/mp3'', ''audio/ogg;codecs=opus'', ''audio/ogg'']"
    by (simp add: formats_def)
next
  assume "i < length formats \<and> isTypeSupported rt (formats ! i)
        \<and> (\<forall>j<i. \<not> isTypeSupported rt (formats ! j))"
  then show "negotiate (isTypeSupported rt) = formats ! i"
    unfolding negotiate_def by (simp add: firstSupported_nth)
next
  assume a: "isTypeSupported rt ''audio/mp3''
    \<and> (\<forall>f. isTypeSupported rt f \<longrightarrow>
           f = ''audio/mp3'' \<or> f = ''audio/ogg;codecs=opus'' \<or> f = ''audio/ogg'')"
  then have "\<not> isTypeSupported rt ''audio/wav''"
    and "\<not> isTypeSupported rt ''audio/webm;codecs=opus''"
    and "\<not> isTypeSupported rt ''audio/webm''"
    by auto
  with a show "negotiate (isTypeSupported rt) = ''audio/mp3''"
    by (simp add: negotiate_def formats_def)
next
  show "list_all (\<lambda>x. rec_mimeType x = negotiate (isTypeSupported rt))
        (recorders (run rt evs (init sid callback mic)))"
    by (rule negotiated_run)
qed

theorem negotiate_first_supported_witness:
  "(3::nat) < length formats
   \<and> isTypeSupported mp3_runtime (formats ! 3)
   \<and> \<not> isTypeSupported mp3_runtime (formats ! 0)
   \<and> \<not> isTypeSupported mp3_runtime (formats ! 1)
   \<and> \<not> isTypeSupported mp3_runtime (formats ! 2)
   \<and> negotiate (isTypeSupported mp3_runtime) = formats ! 3
   \<and> negotiate (isTypeSupported mp3_runtime) = ''audio/mp3''
   \<and> list_all (\<lambda>x. rec_mimeType x = ''audio/mp3'')
        (recorders (run mp3_runtime
          (capture 0 200 @ TranscribeResponse 0 (Json (Some ''hello'')) # capture 1 300) mounted))
   \<and> length (recorders (run mp3_runtime
          (capture 0 200 @ TranscribeResponse 0 (Json (Some ''hello'')) # capture 1 300) mounted)) = 2"
proof -
  let ?sup = "isTypeSupported mp3_runtime"
  let ?evs = "capture 0 200 @ TranscribeResponse 0 (Json (Some ''hello'')) # capture 1 300"
  have h1: "(3::nat) < length formats" by (simp add: formats_def)
  have h2: "?sup (formats ! 3)" by (simp add: formats_def mp3_runtime_def)
  have e: "\<not> ?sup (formats ! 0)" "\<not> ?sup (formats ! 1)" "\<not> ?sup (formats ! 2)"
    by (simp_all add: formats_def mp3_runtime_def)
  have h3: "\<forall>j<3. \<not> ?sup (formats ! j)"
  proof (intro allI impI)
    fix j :: nat assume "j < 3"
    then have "j = 0 \<or> j = 1 \<or> j = 2" by arith
    with e show "\<not> ?sup (formats ! j)" by auto
  qed
  have h4: "?sup ''audio/mp3''
    \<and> (\<forall>f. ?sup f \<longrightarrow> f = ''audio/mp3'' \<or> f = ''audio/ogg;codecs=opus'' \<or> f = ''audio/ogg'')"
    by (simp add: mp3_runtime_def)
  have m: "mounted = init (Some ''session-1'') True Granted" by (simp add: mounted_def)
  have n: "length (recorders (run mp3_runtime ?evs mounted)) = 2"
    by (simp add: run_def sample_defs mp3_runtime_def handler_defs trim_def isWhiteSpace_def Let_def)
  note T = negotiate_first_supported [of 3 mp3_runtime ?evs "Some ''session-1''" True Granted]
  from T h1 h2 h3 have a: "negotiate ?sup = formats ! 3" by blast
  from T h4 have b: "negotiate ?sup = ''audio/mp3''" by blast
  from T have "list_all (\<lambda>x. rec_mimeType x = negotiate ?sup)
      (recorders (run mp3_runtime ?evs mounted))"
    unfolding m by blast
  with b have c: "list_all (\<lambda>x. rec_mimeType x = ''audio/mp3'')
      (recorders (run mp3_runtime ?evs mounted))"
    by simp
  from h1 h2 e a b c n show ?thesis by blast
qed

section \<open>The transcription client\<close>

text \<open>
  C8. When the transcription service answers with the empty string, what the consumer
  receives is the sentence "I'm listening but couldn't hear you clearly. Could you please
  repeat that?"; the component notes that a fallback is used and leaves processing.
\<close>

theorem empty_transcription_fallback:
  assumes "k < length (inflight s)" and "onVoiceMessage s"
  shows "delivered (step rt (TranscribeResponse k (Json (Some ''''))) s) =
           delivered s @
           [''I'm listening but couldn't hear you clearly. Could you please repeat that?'']
         \<and> voiceError (step rt (TranscribeResponse k (Json (Some ''''))) s) =
           Some ''No speech detected. Using fallback message to continue conversation.''
         \<and> \<not> isProcessing (step rt (TranscribeResponse k (Json (Some ''''))) s)"
  using assms
  by (simp add: processRecording_continue_def processRecording_finally_def deliver_def
      scheduleAutoListening_def fallbackNoSpeech_def Let_def)

theorem empty_transcription_fallback_witness:
  "0 < length (inflight (run webm_runtime (capture 0 200) mounted))
   \<and> onVoiceMessage (run webm_runtime (capture 0 200) mounted)
   \<and> delivered (run webm_runtime (capture 0 200 @ [TranscribeResponse 0 (Json (Some ''''))]) mounted) =
       [''I'm listening but couldn't hear you clearly. Could you please repeat that?'']"
proof -
  let ?s = "run webm_runtime (capture 0 200) mounted"
  have h: "0 < length (inflight ?s)" "onVoiceMessage ?s" "delivered ?s = []"
    by (simp_all add: run_def sample_defs handler_defs Let_def)
  from empty_transcription_fallback [OF h(1) h(2), of webm_runtime] h show ?thesis
    by (simp add: run_append run_Cons run_Nil)
qed

text \<open>
  C3 does not hold as stated. A capture of 50 bytes is below the threshold of 100. When
  the user stops it, no request is sent and the controls are idle again, but the consumer
  receives the second fallback sentence. When a recorder error ends it, no request is
  sent and processing ends, but \<^verbatim>\<open>isRecording\<close> is still true: only
  \<^verbatim>\<open>handleVoiceRecord\<close> ever sets it.
\<close>

theorem short_capture_forwards_fallback:
  "length (concat (audioChunksRef (run webm_runtime (butlast (capture 0 50)) mounted))) = 50
   \<and> requests (run webm_runtime (capture 0 50) mounted) = []
   \<and> \<not> isProcessing (run webm_runtime (capture 0 50) mounted)
   \<and> \<not> isRecording (run webm_runtime (capture 0 50) mounted)
   \<and> delivered (run webm_runtime (capture 0 50) mounted) =
       [''I'm having trouble hearing you. Could you please try again?'']
   \<and> requests (run webm_runtime
        [ClickRecord NoFault, DataAvailable 0 (replicate 50 CHR ''a''),
         RecorderError 0 ''NotReadableError'', StopEvent 0] mounted) = []
   \<and> map rec_state (recorders (run webm_runtime
        [ClickRecord NoFault, DataAvailable 0 (replicate 50 CHR ''a''),
         RecorderError 0 ''NotReadableError'', StopEvent 0] mounted)) = [Inactive]
   \<and> \<not> isProcessing (run webm_runtime
        [ClickRecord NoFault, DataAvailable 0 (replicate 50 CHR ''a''),
         RecorderError 0 ''NotReadableError'', StopEvent 0] mounted)
   \<and> isRecording (run webm_runtime
        [ClickRecord NoFault, DataAvailable 0 (replicate 50 CHR ''a''),
         RecorderError 0 ''NotReadableError'', StopEvent 0] mounted)"
  by (simp add: run_def sample_defs handler_defs Let_def)

lemma stop_event_short:
  assumes "i < length (recorders s)" and "rec_stopping (recorders s ! i)"
    and "length (concat (audioChunksRef s)) < 100"
  shows "requests (step rt (StopEvent i) s) = requests s
         \<and> inflight (step rt (StopEvent i) s) = inflight s
         \<and> \<not> isProcessing (step rt (StopEvent i) s)
         \<and> isRecording (step rt (StopEvent i) s) = isRecording s
         \<and> length (recorders (step rt (StopEvent i) s)) = length (recorders s)
         \<and> rec_state (recorders (step rt (StopEvent i) s) ! i) = rec_state (recorders s ! i)
         \<and> \<not> rec_stopping (recorders (step rt (StopEvent i) s) ! i)
         \<and> recordingTimerRef (step rt (StopEvent i) s) = recordingTimerRef s
         \<and> delivered (step rt (StopEvent i) s) =
             (if audioChunksRef s = [] then delivered s
              else if onVoiceMessage s
              then delivered s @ [''I'm having trouble hearing you. Could you please try again?'']
              else delivered s)"
  using assms
  by (simp add: handler_defs fallbackError_def Let_def)

lemma stop_click:
  assumes "isRecording s" and "\<not> isProcessing s" and "streamRef s" and "truthy (sessionId s)"
    and "mediaRecorderRef s = Some i" and "i < length (recorders s)"
    and "rec_state (recorders s ! i) = Recording"
  shows "\<not> isRecording (step rt (ClickRecord fault) s)
     \<and> \<not> isProcessing (step rt (ClickRecord fault) s)
     \<and> \<not> recordingTimerRef (step rt (ClickRecord fault) s)
     \<and> length (recorders (step rt (ClickRecord fault) s)) = length (recorders s)
     \<and> rec_state (recorders (step rt (ClickRecord fault) s) ! i) = Inactive
     \<and> rec_stopping (recorders (step rt (ClickRecord fault) s) ! i)
     \<and> audioChunksRef (step rt (ClickRecord fault) s) = audioChunksRef s
     \<and> requests (step rt (ClickRecord fault) s) = requests s
     \<and> inflight (step rt (ClickRecord fault) s) = inflight s
     \<and> delivered (step rt (ClickRecord fault) s) = delivered s
     \<and> onVoiceMessage (step rt (ClickRecord fault) s) = onVoiceMessage s"
  using assms
  by (simp add: handler_defs Let_def)

lemma final_chunk:
  assumes "i < length (recorders s)" and "rec_stopping (recorders s ! i)"
  shows "isRecording (step rt (DataAvailable i d) s) = isRecording s
     \<and> isProcessing (step rt (DataAvailable i d) s) = isProcessing s
     \<and> recordingTimerRef (step rt (DataAvailable i d) s) = recordingTimerRef s
     \<and> recorders (step rt (DataAvailable i d) s) = recorders s
     \<and> audioChunksRef (step rt (DataAvailable i d) s) =
          (if d = [] then audioChunksRef s else audioChunksRef s @ [d])
     \<and> requests (step rt (DataAvailable i d) s) = requests s
     \<and> inflight (step rt (DataAvailable i d) s) = inflight s
     \<and> delivered (step rt (DataAvailable i d) s) = delivered s
     \<and> onVoiceMessage (step rt (DataAvailable i d) s) = onVoiceMessage s"
  using assms by simp

lemma stopped_by_user_short:
  assumes "isRecording s" and "\<not> isProcessing s" and "streamRef s" and "truthy (sessionId s)"
    and "mediaRecorderRef s = Some i" and "i < length (recorders s)"
    and "rec_state (recorders s ! i) = Recording"
    and "length (concat (audioChunksRef s)) + length d < 100"
  shows "requests (run rt [ClickRecord fault, DataAvailable i d, StopEvent i] s) = requests s
     \<and> inflight (run rt [ClickRecord fault, DataAvailable i d, StopEvent i] s) = inflight s
     \<and> \<not> isRecording (run rt [ClickRecord fault, DataAvailable i d, StopEvent i] s)
     \<and> \<not> isProcessing (run rt [ClickRecord fault, DataAvailable i d, StopEvent i] s)
     \<and> \<not> recordingTimerRef (run rt [ClickRecord fault, DataAvailable i d, StopEvent i] s)
     \<and> rec_state (recorders (run rt [ClickRecord fault, DataAvailable i d, StopEvent i] s) ! i) = Inactive
     \<and> \<not> rec_stopping (recorders (run rt [ClickRecord fault, DataAvailable i d, StopEvent i] s) ! i)
     \<and> delivered (run rt [ClickRecord fault, DataAvailable i d, StopEvent i] s) =
          (if audioChunksRef s = [] \<and> d = [] then delivered s
           else if onVoiceMessage s
           then delivered s @ [''I'm having trouble hearing you. Could you please try again?'']
           else delivered s)"
proof -
  let ?s1 = "step rt (ClickRecord fault) s"
  let ?s2 = "step rt (DataAvailable i d) ?s1"
  let ?s3 = "step rt (StopEvent i) ?s2"
  have r: "run rt [ClickRecord fault, DataAvailable i d, StopEvent i] s = ?s3"
    by (simp add: run_def)
  note c = stop_click [OF assms(1-7), of rt fault]
  from c have i1: "i < length (recorders ?s1)" and st1: "rec_stopping (recorders ?s1 ! i)"
    using assms(6) by simp_all
  note f = final_chunk [OF i1 st1, of rt d]
  from f i1 st1 have i2: "i < length (recorders ?s2)" and st2: "rec_stopping (recorders ?s2 ! i)"
    by simp_all
  from f c assms(8) have sh: "length (concat (audioChunksRef ?s2)) < 100" by simp
  note e = stop_event_short [OF i2 st2 sh, of rt]
  from c f e show ?thesis unfolding r by (simp split: if_splits)
qed

text \<open>
  C3, as the code has it. For every capture shorter than 100 bytes, however it was ended,
  the transcription service is not called and processing ends when the \<^verbatim>\<open>stop\<close>
  event is handled; with no chunk at all nothing is forwarded, and with a non-empty
  payload the \<^verbatim>\<open>catch\<close> block forwards "I'm having trouble hearing you. Could you
  please try again?" to the consumer, when there is one. When the user ends such a
  capture with the button (the click, a last chunk \<open>d\<close> that may be empty, the
  \<^verbatim>\<open>stop\<close> event), the controls are idle afterwards: \<^verbatim>\<open>isRecording\<close> and
  \<^verbatim>\<open>isProcessing\<close> are false, the interval is cleared, and the recorder is inactive
  with no event pending.
\<close>

theorem short_capture_skips_transcription:
  "(j < length (recorders t) \<and> rec_stopping (recorders t ! j)
      \<and> length (concat (audioChunksRef t)) < 100 \<longrightarrow>
      requests (step rt (StopEvent j) t) = requests t
      \<and> inflight (step rt (StopEvent j) t) = inflight t
      \<and> \<not> isProcessing (step rt (StopEvent j) t)
      \<and> isRecording (step rt (StopEvent j) t) = isRecording t
      \<and> rec_state (recorders (step rt (StopEvent j) t) ! j) = rec_state (recorders t ! j)
      \<and> \<not> rec_stopping (recorders (step rt (StopEvent j) t) ! j)
      \<and> delivered (step rt (StopEvent j) t) =
          (if audioChunksRef t = [] then delivered t
           else if onVoiceMessage t
           then delivered t @ [''I'm having trouble hearing you. Could you please try again?'']
           else delivered t))
   \<and> (isRecording s \<and> \<not> isProcessing s \<and> streamRef s \<and> truthy (sessionId s)
      \<and> mediaRecorderRef s = Some i \<and> i < length (recorders s)
      \<and> rec_state (recorders s ! i) = Recording
      \<and> length (concat (audioChunksRef s)) + length d < 100 \<longrightarrow>
      requests (run rt [ClickRecord fault, DataAvailable i d, StopEvent i] s) = requests s
      \<and> inflight (run rt [ClickRecord fault, DataAvailable i d, StopEvent i] s) = inflight s
      \<and> \<not> isRecording (run rt [ClickRecord fault, DataAvailable i d, StopEvent i] s)
      \<and> \<not> isProcessing (run rt [ClickRecord fault, DataAvailable i d, StopEvent i] s)
      \<and> \<not> recordingTimerRef (run rt [ClickRecord fault, DataAvailable i d, StopEvent i] s)
      \<and> rec_state (recorders (run rt [ClickRecord fault, DataAvailable i d, StopEvent i] s) ! i)
          = Inactive
      \<and> \<not> rec_stopping
            (recorders (run rt [ClickRecord fault, DataAvailable i d, StopEvent i] s) ! i)
      \<and> delivered (run rt [ClickRecord fault, DataAvailable i d, StopEvent i] s) =
          (if audioChunksRef s = [] \<and> d = [] then delivered s
           else if onVoiceMessage s
           then delivered s @ [''I'm having trouble hearing you. Could you please try again?'']
           else delivered s))"
  using stop_event_short [of j t rt] stopped_by_user_short [of s i d rt fault]
  by blast

theorem short_capture_skips_transcription_witness:
  "0 < length (recorders (run webm_runtime (butlast (capture 0 50)) mounted))
   \<and> rec_stopping (recorders (run webm_runtime (butlast (capture 0 50)) mounted) ! 0)
   \<and> length (concat (audioChunksRef (run webm_runtime (butlast (capture 0 50)) mounted))) < 100
   \<and> requests (step webm_runtime (StopEvent 0)
        (run webm_runtime (butlast (capture 0 50)) mounted)) = []
   \<and> \<not> isProcessing (step webm_runtime (StopEvent 0)
        (run webm_runtime (butlast (capture 0 50)) mounted))
   \<and> isRecording (run webm_runtime (take 2 (capture 0 50)) mounted)
   \<and> \<not> isProcessing (run webm_runtime (take 2 (capture 0 50)) mounted)
   \<and> streamRef (run webm_runtime (take 2 (capture 0 50)) mounted)
   \<and> truthy (sessionId (run webm_runtime (take 2 (capture 0 50)) mounted))
   \<and> mediaRecorderRef (run webm_runtime (take 2 (capture 0 50)) mounted) = Some 0
   \<and> 0 < length (recorders (run webm_runtime (take 2 (capture 0 50)) mounted))
   \<and> rec_state (recorders (run webm_runtime (take 2 (capture 0 50)) mounted) ! 0) = Recording
   \<and> length (concat (audioChunksRef (run webm_runtime (take 2 (capture 0 50)) mounted)))
        + length ''final chunk'' < 100
   \<and> \<not> isRecording (run webm_runtime
        [ClickRecord NoFault, DataAvailable 0 ''final chunk'', StopEvent 0]
        (run webm_runtime (take 2 (capture 0 50)) mounted))
   \<and> \<not> isProcessing (run webm_runtime
        [ClickRecord NoFault, DataAvailable 0 ''final chunk'', StopEvent 0]
        (run webm_runtime (take 2 (capture 0 50)) mounted))
   \<and> rec_state (recorders (run webm_runtime
        [ClickRecord NoFault, DataAvailable 0 ''final chunk'', StopEvent 0]
        (run webm_runtime (take 2 (capture 0 50)) mounted)) ! 0) = Inactive"
proof -
  let ?t = "run webm_runtime (butlast (capture 0 50)) mounted"
  let ?s = "run webm_runtime (take 2 (capture 0 50)) mounted"
  have t1: "0 < length (recorders ?t)"
    by (simp add: run_def sample_defs handler_defs Let_def)
  have t2: "rec_stopping (recorders ?t ! 0)"
    by (simp add: run_def sample_defs handler_defs Let_def)
  have t3: "length (concat (audioChunksRef ?t)) < 100"
    by (simp add: run_def sample_defs handler_defs Let_def)
  have t4: "requests ?t = []"
    by (simp add: run_def sample_defs handler_defs Let_def)
  have s1: "isRecording ?s" "\<not> isProcessing ?s" "streamRef ?s" "truthy (sessionId ?s)"
    by (simp_all add: run_def sample_defs handler_defs Let_def)
  have s2: "mediaRecorderRef ?s = Some 0" "0 < length (recorders ?s)"
    "rec_state (recorders ?s ! 0) = Recording"
    by (simp_all add: run_def sample_defs handler_defs Let_def)
  have s3: "length (concat (audioChunksRef ?s)) + length ''final chunk'' < 100"
    by (simp add: run_def sample_defs handler_defs Let_def)
  note T = short_capture_skips_transcription
    [of 0 ?t webm_runtime ?s 0 "''final chunk''" NoFault]
  from T t1 t2 t3
  have a: "requests (step webm_runtime (StopEvent 0) ?t) = requests ?t
      \<and> \<not> isProcessing (step webm_runtime (StopEvent 0) ?t)"
    by blast
  from T s1 s2 s3
  have b: "\<not> isRecording (run webm_runtime
        [ClickRecord NoFault, DataAvailable 0 ''final chunk'', StopEvent 0] ?s)
      \<and> \<not> isProcessing (run webm_runtime
        [ClickRecord NoFault, DataAvailable 0 ''final chunk'', StopEvent 0] ?s)
      \<and> rec_state (recorders (run webm_runtime
        [ClickRecord NoFault, DataAvailable 0 ''final chunk'', StopEvent 0] ?s) ! 0) = Inactive"
    by blast
  from a t4 have a': "requests (step webm_runtime (StopEvent 0) ?t) = []
      \<and> \<not> isProcessing (step webm_runtime (StopEvent 0) ?t)"
    by simp
  from t1 t2 t3 a' s1 s2 s3 b show ?thesis by blast
qed

section \<open>The tag of the payload\<close>

lemma step_recorders_length: "length (recorders s) \<le> length (recorders (step rt ev s))"
  by (cases ev)
     (auto simp: handler_defs Let_def split: option.splits fault.splits transcribe_response.splits prod.splits)

lemma step_rec_mimeType:
  "i < length (recorders s) \<Longrightarrow>
   rec_mimeType (recorders (step rt ev s) ! i) = rec_mimeType (recorders s ! i)"
  by (cases ev)
     (auto simp: handler_defs Let_def nth_append nth_list_update
           split: option.splits fault.splits transcribe_response.splits prod.splits)

lemma makeBlob_type:
  "blob_type (fst (makeBlob supported chunks)) =
     (if supported ''audio/wav'' then ''audio/wav''
      else if supported ''audio/mp3'' then ''audio/mp3'' else ''audio/webm'')"
  by (simp add: makeBlob_def)

lemma negotiate_wav: "negotiate supported = ''audio/wav'' \<Longrightarrow> supported ''audio/wav''"
  by (auto simp: negotiate_def formats_def split: if_splits)

lemma negotiate_mp3:
  "negotiate supported = ''audio/mp3'' \<Longrightarrow> supported ''audio/mp3'' \<and> \<not> supported ''audio/wav''"
  by (auto simp: negotiate_def formats_def split: if_splits)

text \<open>
  C6 does not hold as stated. In a browser that records Ogg only, the recorder is created
  with Opus-in-Ogg and the payload of its recording is sent as \<^verbatim>\<open>audio/webm\<close>. In a
  browser that records none of the candidates, the recorder is created without a format
  option and uses the browser's default.
\<close>

theorem ogg_recording_tagged_webm:
  "map rec_mimeType (recorders (run ogg_runtime (capture 0 200) mounted)) =
     [''audio/ogg;codecs=opus'']
   \<and> map (\<lambda>q. blob_type (req_audio_file q)) (requests (run ogg_runtime (capture 0 200) mounted)) =
       [''audio/webm'']
   \<and> map rec_mimeType (recorders (run mp4_runtime (capture 0 200) mounted)) = [[]]
   \<and> map (\<lambda>q. blob_type (req_audio_file q)) (requests (run mp4_runtime (capture 0 200) mounted)) =
       [''audio/webm'']"
  by (simp add: run_def sample_defs ogg_runtime_def mp4_runtime_def handler_defs Let_def)

text \<open>
  C6, as the code has it. The recorder of a session is created with the negotiated format
  (the first supported candidate, or none when the browser supports no candidate), and no
  event changes the format of an existing recorder. The payload sent to the transcription
  service is tagged by a second probe when the recording is processed: \<^verbatim>\<open>audio/wav\<close> if
  the browser records WAV, else \<^verbatim>\<open>audio/mp3\<close> if it records MP3, else
  \<^verbatim>\<open>audio/webm\<close>. The tag is the negotiated format when that is WAV or MP3.
\<close>

theorem payload_tag:
  "(fst (startRecording rt fault r s) \<longrightarrow>
      recorders (snd (startRecording rt fault r s)) =
        recorders s @ [\<lparr>rec_state = Recording, rec_stopping = False,
                        rec_mimeType = negotiate (isTypeSupported rt), rec_onstop = r\<rparr>])
   \<and> (negotiate (isTypeSupported rt) = [] \<or> negotiate (isTypeSupported rt) \<in> set formats)
   \<and> (i < length (recorders s) \<longrightarrow>
        i < length (recorders (step rt ev s))
        \<and> rec_mimeType (recorders (step rt ev s) ! i) = rec_mimeType (recorders s ! i))
   \<and> (i < length (recorders s) \<and> rec_stopping (recorders s ! i)
        \<and> 100 \<le> length (concat (audioChunksRef s)) \<longrightarrow>
        map (\<lambda>q. blob_type (req_audio_file q)) (requests (step rt (StopEvent i) s)) =
          map (\<lambda>q. blob_type (req_audio_file q)) (requests s) @
          [if isTypeSupported rt ''audio/wav'' then ''audio/wav''
           else if isTypeSupported rt ''audio/mp3'' then ''audio/mp3'' else ''audio/webm''])
   \<and> (negotiate (isTypeSupported rt) = ''audio/wav'' \<or> negotiate (isTypeSupported rt) = ''audio/mp3''
        \<longrightarrow> (if isTypeSupported rt ''audio/wav'' then ''audio/wav''
             else if isTypeSupported rt ''audio/mp3'' then ''audio/mp3'' else ''audio/webm'') =
            negotiate (isTypeSupported rt))"
proof (intro conjI impI)
  assume "fst (startRecording rt fault r s)"
  then show "recorders (snd (startRecording rt fault r s)) =
        recorders s @ [\<lparr>rec_state = Recording, rec_stopping = False,
                        rec_mimeType = negotiate (isTypeSupported rt), rec_onstop = r\<rparr>]"
    by (auto simp: startRecording_def Let_def split: if_splits fault.splits)
next
  show "negotiate (isTypeSupported rt) = [] \<or> negotiate (isTypeSupported rt) \<in> set formats"
    unfolding negotiate_def by (rule firstSupported_cases)
next
  assume "i < length (recorders s)"
  then show "i < length (recorders (step rt ev s))"
    using step_recorders_length [of s rt ev] by simp
next
  assume "i < length (recorders s)"
  then show "rec_mimeType (recorders (step rt ev s) ! i) = rec_mimeType (recorders s ! i)"
    by (rule step_rec_mimeType)
next
  assume "i < length (recorders s) \<and> rec_stopping (recorders s ! i)
        \<and> 100 \<le> length (concat (audioChunksRef s))"
  then show "map (\<lambda>q. blob_type (req_audio_file q)) (requests (step rt (StopEvent i) s)) =
          map (\<lambda>q. blob_type (req_audio_file q)) (requests s) @
          [if isTypeSupported rt ''audio/wav'' then ''audio/wav''
           else if isTypeSupported rt ''audio/mp3'' then ''audio/mp3'' else ''audio/webm'']"
    by (auto simp: processRecording_def makeBlob_def Let_def)
next
  assume "negotiate (isTypeSupported rt) = ''audio/wav'' \<or> negotiate (isTypeSupported rt) = ''audio/mp3''"
  then show "(if isTypeSupported rt ''audio/wav'' then ''audio/wav''
             else if isTypeSupported rt ''audio/mp3'' then ''audio/mp3'' else ''audio/webm'') =
            negotiate (isTypeSupported rt)"
    using negotiate_wav [of "isTypeSupported rt"] negotiate_mp3 [of "isTypeSupported rt"] by auto
qed

theorem payload_tag_witness:
  "fst (startRecording mp3_runtime NoFault (render_now mounted)
          (run mp3_runtime (butlast (capture 0 200)) mounted))
   \<and> 0 < length (recorders (run mp3_runtime (butlast (capture 0 200)) mounted))
   \<and> rec_stopping (recorders (run mp3_runtime (butlast (capture 0 200)) mounted) ! 0)
   \<and> 100 \<le> length (concat (audioChunksRef (run mp3_runtime (butlast (capture 0 200)) mounted)))
   \<and> negotiate (isTypeSupported mp3_runtime) = ''audio/mp3''
   \<and> rec_mimeType (recorders (run mp3_runtime (capture 0 200) mounted) ! 0) = ''audio/mp3''
   \<and> map (\<lambda>q. blob_type (req_audio_file q)) (requests (run mp3_runtime (capture 0 200) mounted)) =
       [''audio/mp3'']"
proof -
  let ?s = "run mp3_runtime (butlast (capture 0 200)) mounted"
  have h1: "fst (startRecording mp3_runtime NoFault (render_now mounted) ?s)"
    by (simp add: run_def sample_defs mp3_runtime_def handler_defs Let_def)
  have h2: "0 < length (recorders ?s)"
    by (simp add: run_def sample_defs mp3_runtime_def handler_defs Let_def)
  have h3: "rec_stopping (recorders ?s ! 0)"
    by (simp add: run_def sample_defs mp3_runtime_def handler_defs Let_def)
  have h4: "100 \<le> length (concat (audioChunksRef ?s))"
    by (simp add: run_def sample_defs mp3_runtime_def handler_defs Let_def)
  have h5: "negotiate (isTypeSupported mp3_runtime) = ''audio/mp3''"
    by (simp add: sample_defs mp3_runtime_def)
  have h6: "requests ?s = []"
    by (simp add: run_def sample_defs mp3_runtime_def handler_defs Let_def)
  have h7: "rec_mimeType (recorders ?s ! 0) = ''audio/mp3''"
    by (simp add: run_def sample_defs mp3_runtime_def handler_defs Let_def)
  have h8: "isTypeSupported mp3_runtime ''audio/mp3''" "\<not> isTypeSupported mp3_runtime ''audio/wav''"
    by (simp_all add: mp3_runtime_def)
  have e: "run mp3_runtime (capture 0 200) mounted = step mp3_runtime (StopEvent 0) ?s"
    by (simp add: capture_def run_def)
  note T = payload_tag [of mp3_runtime NoFault "render_now mounted" ?s 0 "StopEvent 0"]
  from T h2 have a: "rec_mimeType (recorders (step mp3_runtime (StopEvent 0) ?s) ! 0)
      = rec_mimeType (recorders ?s ! 0)"
    by blast
  from T h2 h3 h4
  have "map (\<lambda>q. blob_type (req_audio_file q)) (requests (step mp3_runtime (StopEvent 0) ?s)) =
          map (\<lambda>q. blob_type (req_audio_file q)) (requests ?s) @
          [if isTypeSupported mp3_runtime ''audio/wav'' then ''audio/wav''
           else if isTypeSupported mp3_runtime ''audio/mp3'' then ''audio/mp3'' else ''audio/webm'']"
    by blast
  with h6 h8
  have b: "map (\<lambda>q. blob_type (req_audio_file q)) (requests (step mp3_runtime (StopEvent 0) ?s)) =
          [''audio/mp3'']"
    by simp
  from a h7 have c: "rec_mimeType (recorders (step mp3_runtime (StopEvent 0) ?s) ! 0) = ''audio/mp3''"
    by simp
  show ?thesis
    unfolding e using h1 h2 h3 h4 h5 b c by blast
qed

section \<open>A failed start\<close>

lemma idle_recorder_step:
  assumes "i < length (recorders s)" and "rec_state (recorders s ! i) = Inactive"
    and "\<not> rec_stopping (recorders s ! i)"
  shows "i < length (recorders (step rt ev s))
         \<and> rec_state (recorders (step rt ev s) ! i) = Inactive
         \<and> \<not> rec_stopping (recorders (step rt ev s) ! i)"
  using assms
  by (cases ev)
     (auto simp: handler_defs Let_def nth_append nth_list_update
           split: option.splits fault.splits transcribe_response.splits prod.splits)

lemma idle_recorder_run:
  assumes "i < length (recorders s)" and "rec_state (recorders s ! i) = Inactive"
    and "\<not> rec_stopping (recorders s ! i)"
  shows "i < length (recorders (run rt evs s))
         \<and> rec_state (recorders (run rt evs s) ! i) = Inactive
         \<and> \<not> rec_stopping (recorders (run rt evs s) ! i)"
proof (rule run_invariant)
  show "i < length (recorders s) \<and> rec_state (recorders s ! i) = Inactive
        \<and> \<not> rec_stopping (recorders s ! i)"
    using assms by simp
next
  fix ev and s' :: state
  assume "i < length (recorders s') \<and> rec_state (recorders s' ! i) = Inactive
        \<and> \<not> rec_stopping (recorders s' ! i)"
  then show "i < length (recorders (step rt ev s'))
         \<and> rec_state (recorders (step rt ev s') ! i) = Inactive
         \<and> \<not> rec_stopping (recorders (step rt ev s') ! i)"
    using idle_recorder_step [of i s' rt ev] by blast
qed

text \<open>
  C10. When \<^verbatim>\<open>handleVoiceRecord\<close> takes its start branch and the start fails (no stream,
  or creating or starting the recorder throws), \<^verbatim>\<open>isRecording\<close> is false afterwards, an
  error is shown, and the attempt has sent no request and left none in flight. The
  recorder that may have been created is inactive, and in no later run does its
  \<^verbatim>\<open>stop\<close> event occur, so \<^verbatim>\<open>processRecording\<close> never runs for the attempt.
\<close>

theorem failed_start_resets_flag:
  assumes "truthy (sessionId s)" and "\<not> r_isRecording r"
    and "\<not> streamRef s \<or> fault \<noteq> NoFault"
  shows "\<not> isRecording (handleVoiceRecord rt fault r s)
         \<and> voiceError (handleVoiceRecord rt fault r s) \<noteq> None
         \<and> requests (handleVoiceRecord rt fault r s) = requests s
         \<and> inflight (handleVoiceRecord rt fault r s) = inflight s
         \<and> (recorders (handleVoiceRecord rt fault r s) = recorders s
             \<or> recorders (handleVoiceRecord rt fault r s) =
                 recorders s @ [\<lparr>rec_state = Inactive, rec_stopping = False,
                                 rec_mimeType = negotiate (isTypeSupported rt), rec_onstop = r\<rparr>])
         \<and> (length (recorders s) < length (recorders (handleVoiceRecord rt fault r s)) \<longrightarrow>
               step rt (StopEvent (length (recorders s)))
                 (run rt evs (handleVoiceRecord rt fault r s)) =
               run rt evs (handleVoiceRecord rt fault r s))"
proof -
  let ?s' = "handleVoiceRecord rt fault r s"
  have a: "\<not> isRecording ?s' \<and> voiceError ?s' \<noteq> None \<and> requests ?s' = requests s
      \<and> inflight ?s' = inflight s"
    using assms by (cases fault) (auto simp: handleVoiceRecord_def startRecording_def Let_def)
  have b: "recorders ?s' = recorders s
      \<or> recorders ?s' = recorders s @ [\<lparr>rec_state = Inactive, rec_stopping = False,
            rec_mimeType = negotiate (isTypeSupported rt), rec_onstop = r\<rparr>]"
    using assms by (cases fault) (auto simp: handleVoiceRecord_def startRecording_def Let_def)
  have c: "step rt (StopEvent (length (recorders s))) (run rt evs ?s') = run rt evs ?s'"
    if "length (recorders s) < length (recorders ?s')"
  proof -
    from that b have "rec_state (recorders ?s' ! length (recorders s)) = Inactive"
      and "\<not> rec_stopping (recorders ?s' ! length (recorders s))"
      by auto
    with that idle_recorder_run [of "length (recorders s)" ?s' rt evs]
    have "\<not> rec_stopping (recorders (run rt evs ?s') ! length (recorders s))" by blast
    then show ?thesis by simp
  qed
  from a b c show ?thesis by blast
qed

theorem failed_start_resets_flag_witness:
  "truthy (sessionId mounted) \<and> \<not> r_isRecording (render_now mounted)
   \<and> StartThrows ''NotSupportedError'' \<noteq> NoFault
   \<and> \<not> isRecording (step webm_runtime (ClickRecord (StartThrows ''NotSupportedError'')) mounted)
   \<and> voiceError (step webm_runtime (ClickRecord (StartThrows ''NotSupportedError'')) mounted) =
       Some ''Recording failed: NotSupportedError''
   \<and> requests (step webm_runtime (ClickRecord (StartThrows ''NotSupportedError'')) mounted) = []
   \<and> map rec_state
        (recorders (step webm_runtime (ClickRecord (StartThrows ''NotSupportedError'')) mounted)) =
       [Inactive]
   \<and> step webm_runtime (StopEvent 0)
        (run webm_runtime [Elapse 1000, RecordingTick]
          (step webm_runtime (ClickRecord (StartThrows ''NotSupportedError'')) mounted)) =
       run webm_runtime [Elapse 1000, RecordingTick]
         (step webm_runtime (ClickRecord (StartThrows ''NotSupportedError'')) mounted)"
proof -
  let ?f = "StartThrows ''NotSupportedError''"
  let ?s' = "handleVoiceRecord webm_runtime ?f (render_now mounted) mounted"
  have h1: "truthy (sessionId mounted)" by (simp add: sample_defs)
  have h2: "\<not> r_isRecording (render_now mounted)" by (simp add: sample_defs render_now_def)
  have h3: "\<not> streamRef mounted \<or> ?f \<noteq> NoFault" by simp
  have e: "step webm_runtime (ClickRecord ?f) mounted = ?s'"
    by (simp add: sample_defs)
  have v: "voiceError ?s' = Some ''Recording failed: NotSupportedError''"
    "map rec_state (recorders ?s') = [Inactive]"
    "requests mounted = []" "length (recorders mounted) = 0" "0 < length (recorders ?s')"
    by (simp_all add: sample_defs handler_defs Let_def)
  note T = failed_start_resets_flag [OF h1 h2 h3, of webm_runtime "[Elapse 1000, RecordingTick]"]
  from T have a: "\<not> isRecording ?s'" and b: "requests ?s' = requests mounted"
    by blast+
  from T v(4,5)
  have c: "step webm_runtime (StopEvent 0) (run webm_runtime [Elapse 1000, RecordingTick] ?s') =
      run webm_runtime [Elapse 1000, RecordingTick] ?s'"
    by simp
  from h1 h2 v a b c show ?thesis unfolding e by simp
qed

section \<open>The cap of 60 seconds\<close>

lemma recordingTime_step: "recordingTime s \<le> 60 \<Longrightarrow> recordingTime (step rt ev s) \<le> 60"
  by (cases ev)
     (auto simp: handler_defs Let_def
           split: option.splits fault.splits transcribe_response.splits prod.splits)

lemma timer_step:
  "recordingTimerRef s \<or> \<not> refRecording s \<Longrightarrow>
   recordingTimerRef (step rt ev s) \<or> \<not> refRecording (step rt ev s)"
  by (cases ev)
     (auto simp: handler_defs Let_def nth_append nth_list_update
           split: option.splits fault.splits transcribe_response.splits prod.splits if_splits)

lemma recordingTime_run: "recordingTime (run rt evs (init sid callback mic)) \<le> 60"
  by (rule run_invariant) (simp_all add: init_def recordingTime_step)

lemma timer_run:
  "refRecording (run rt evs (init sid callback mic)) \<Longrightarrow>
   recordingTimerRef (run rt evs (init sid callback mic))"
proof -
  have "recordingTimerRef (run rt evs (init sid callback mic))
        \<or> \<not> refRecording (run rt evs (init sid callback mic))"
  proof (rule run_invariant)
    show "recordingTimerRef (init sid callback mic) \<or> \<not> refRecording (init sid callback mic)"
      by (simp add: init_def refRecording_def)
  next
    fix ev s
    assume "recordingTimerRef s \<or> \<not> refRecording s"
    then show "recordingTimerRef (step rt ev s) \<or> \<not> refRecording (step rt ev s)"
      by (rule timer_step)
  qed
  then show "refRecording (run rt evs (init sid callback mic)) \<Longrightarrow>
    recordingTimerRef (run rt evs (init sid callback mic))"
    by blast
qed

text \<open>
  A tick that finds the counter at 60 while the recorder of \<^verbatim>\<open>mediaRecorderRef\<close>
  records: the counter stays at 60, that recorder is stopped (inactive, its \<^verbatim>\<open>stop\<close>
  event pending), the ref still names it, and the interval is cleared. The tick does not
  reset \<^verbatim>\<open>isRecording\<close>.
\<close>

lemma tick_at_cap:
  assumes "recordingTime s = 60" and "recordingTimerRef s \<or> 0 < strayTimers s"
    and "mediaRecorderRef s = Some i"
    and "i < length (recorders s)" and "rec_state (recorders s ! i) = Recording"
  shows "recordingTime (step rt RecordingTick s) = 60
     \<and> mediaRecorderRef (step rt RecordingTick s) = Some i
     \<and> length (recorders (step rt RecordingTick s)) = length (recorders s)
     \<and> rec_state (recorders (step rt RecordingTick s) ! i) = Inactive
     \<and> rec_stopping (recorders (step rt RecordingTick s) ! i)
     \<and> \<not> recordingTimerRef (step rt RecordingTick s)
     \<and> isRecording (step rt RecordingTick s) = isRecording s"
  using assms
  by (simp add: recordingTick_def stopRecording_def refRecording_def stopRecorder_def Let_def)

text \<open>
  A recorder that \<^verbatim>\<open>mediaRecorderRef\<close> does not name is out of reach of
  \<^verbatim>\<open>stopRecording\<close>: no tick stops it.
\<close>

lemma orphan_step:
  assumes "j < length (recorders s)" and "rec_state (recorders s ! j) = Recording"
    and "mediaRecorderRef s \<noteq> Some j"
  shows "j < length (recorders (step rt RecordingTick s))
     \<and> rec_state (recorders (step rt RecordingTick s) ! j) = Recording
     \<and> mediaRecorderRef (step rt RecordingTick s) \<noteq> Some j"
  using assms
  by (auto simp: recordingTick_def stopRecording_def stopRecorder_def refRecording_def Let_def
        nth_list_update split: option.splits)

lemma orphan_ticks:
  assumes "j < length (recorders s)" and "rec_state (recorders s ! j) = Recording"
    and "mediaRecorderRef s \<noteq> Some j"
  shows "rec_state (recorders (run rt (replicate n RecordingTick) s) ! j) = Recording"
proof -
  have "j < length (recorders (run rt (replicate n RecordingTick) s))
     \<and> rec_state (recorders (run rt (replicate n RecordingTick) s) ! j) = Recording
     \<and> mediaRecorderRef (run rt (replicate n RecordingTick) s) \<noteq> Some j"
  proof (rule run_invariant)
    show "j < length (recorders s) \<and> rec_state (recorders s ! j) = Recording
      \<and> mediaRecorderRef s \<noteq> Some j"
      using assms by simp
  next
    fix ev and s' :: state
    assume "ev \<in> set (replicate n RecordingTick)"
      and "j < length (recorders s') \<and> rec_state (recorders s' ! j) = Recording
      \<and> mediaRecorderRef s' \<noteq> Some j"
    then show "j < length (recorders (step rt ev s'))
      \<and> rec_state (recorders (step rt ev s') ! j) = Recording
      \<and> mediaRecorderRef (step rt ev s') \<noteq> Some j"
      using orphan_step [of j s' rt] by auto
  qed
  then show ?thesis by blast
qed

text \<open>
  C7. The counter never exceeds 60 (\<open>recordingTime_run\<close>), and the tick that finds it at
  60 stops the recorder of \<^verbatim>\<open>mediaRecorderRef\<close> (\<open>tick_at_cap\<close>). But the cap reaches
  that recorder only. In the run where a manual and an automatic recording overlap,
  recorder 1 is recording and the ref names recorder 2. After 61 ticks the counter is 60
  and recorder 2 has been stopped; recorder 1 is still recording, and stays so after any
  number of ticks: for this recording no stop is ever forced.
\<close>

theorem orphaned_recording_never_capped:
  "map rec_state (recorders (run webm_runtime overlap_run mounted)) =
     [Inactive, Recording, Recording]
   \<and> mediaRecorderRef (run webm_runtime overlap_run mounted) = Some 2
   \<and> recordingTime (run webm_runtime (overlap_run @ replicate 61 RecordingTick) mounted) = 60
   \<and> map rec_state
        (recorders (run webm_runtime (overlap_run @ replicate 61 RecordingTick) mounted)) =
       [Inactive, Recording, Inactive]
   \<and> rec_state
        (recorders (run webm_runtime (overlap_run @ replicate n RecordingTick) mounted) ! 1) =
       Recording"
proof -
  let ?s = "run webm_runtime overlap_run mounted"
  have a: "map rec_state (recorders ?s) = [Inactive, Recording, Recording]"
    and b: "mediaRecorderRef ?s = Some 2"
    by (simp_all add: overlap_run_def run_def sample_defs auto_cycle_def handler_defs
          trim_def isWhiteSpace_def Let_def)
  have c: "recordingTime (run webm_runtime (overlap_run @ replicate 61 RecordingTick) mounted) = 60"
    by code_simp
  have d: "map rec_state
        (recorders (run webm_runtime (overlap_run @ replicate 61 RecordingTick) mounted)) =
       [Inactive, Recording, Inactive]"
    by code_simp
  from a have l: "1 < length (recorders ?s)" and r: "rec_state (recorders ?s ! 1) = Recording"
    by (auto simp: list_eq_iff_nth_eq)
  from b have m: "mediaRecorderRef ?s \<noteq> Some 1" by simp
  have e: "rec_state
        (recorders (run webm_runtime (overlap_run @ replicate n RecordingTick) mounted) ! 1) =
       Recording"
    unfolding run_append by (rule orphan_ticks [OF l r m])
  from a b c d e show ?thesis by blast
qed

section \<open>Auto-listening switched off\<close>

lemma never_enabled_step:
  assumes "\<not> autoMode s" and "autoListenTimeoutRef s = None"
    and "\<forall>x\<in>set (recorders s). \<not> r_autoMode (rec_onstop x)"
    and "\<forall>r\<in>set (inflight s). \<not> r_autoMode r"
    and "ev \<noteq> ClickAutoMode"
  shows "\<not> autoMode (step rt ev s) \<and> autoListenTimeoutRef (step rt ev s) = None
         \<and> (\<forall>x\<in>set (recorders (step rt ev s)). \<not> r_autoMode (rec_onstop x))
         \<and> (\<forall>r\<in>set (inflight (step rt ev s)). \<not> r_autoMode r)"
proof (cases ev)
  case (ClickRecord fault)
  with assms show ?thesis
    by (cases fault)
       (auto simp: handler_defs Let_def split: option.splits dest!: in_set_updateD)
next
  case (RecorderError i msg)
  with assms show ?thesis
    by (auto simp: handler_defs Let_def dest!: in_set_updateD)
next
  case (StopEvent i)
  with assms show ?thesis
    by (auto simp: handler_defs Let_def dest!: in_set_updateD)
next
  case (TranscribeResponse k resp)
  with assms show ?thesis
    by (cases resp)
       (auto simp: handler_defs Let_def split: option.splits dest: in_set_takeD in_set_dropD)
next
  case RecordingTick
  with assms show ?thesis
    by (auto simp: handler_defs Let_def split: option.splits dest!: in_set_updateD)
qed (use assms in \<open>auto simp: handler_defs Let_def\<close>)

lemma autoMode_step: "ev \<noteq> ClickAutoMode \<Longrightarrow> autoMode (step rt ev s) = autoMode s"
  by (cases ev)
     (auto simp: handler_defs Let_def
           split: option.splits fault.splits transcribe_response.splits prod.splits)

lemma never_enabled_run:
  assumes "ClickAutoMode \<notin> set evs"
  shows "autoListenTimeoutRef (run rt evs (init sid callback mic)) = None"
proof -
  let ?P = "\<lambda>s::state. \<not> autoMode s \<and> autoListenTimeoutRef s = None
         \<and> (\<forall>x\<in>set (recorders s). \<not> r_autoMode (rec_onstop x))
         \<and> (\<forall>r\<in>set (inflight s). \<not> r_autoMode r)"
  have "?P (run rt evs (init sid callback mic))"
  proof (rule run_invariant)
    show "?P (init sid callback mic)" by (simp add: init_def)
  next
    fix ev and s :: state
    assume "ev \<in> set evs" and p: "?P s"
    with assms have "ev \<noteq> ClickAutoMode" by auto
    with p show "?P (step rt ev s)" using never_enabled_step [of s ev rt] by blast
  qed
  then show ?thesis by blast
qed

text \<open>
  C2. Auto-listening is off after mounting and only the toggle changes it
  (\<open>autoMode_step\<close>), and as long as the toggle was never used nothing is scheduled
  (\<open>never_enabled_run\<close>). But \<^verbatim>\<open>processRecording\<close>, \<^verbatim>\<open>scheduleAutoListening\<close> and the
  timeout callback read the \<^verbatim>\<open>autoMode\<close> of the render that started the recording, and
  the toggle clears no timeout. In the first run auto-listening is switched on, a cycle
  ends and schedules the timeout, and the user switches auto-listening off. The reply is
  played to its end. At 3000 the timeout fires and a recording starts, with
  auto-listening off. In the second run auto-listening is switched off while the
  recording is still running; its transcription schedules the timeout all the same, and
  the timeout starts a recording.
\<close>

theorem rearm_after_switching_off:
  "autoMode (run webm_runtime
     (auto_cycle @
      [ClickAutoMode, Speak, SynthesisResponse 0 (SynthJson (Some ''SGk='') ''mp3''),
       AudioEvent 0 Ended]) mounted) = False
   \<and> autoListenTimeoutRef (run webm_runtime
     (auto_cycle @
      [ClickAutoMode, Speak, SynthesisResponse 0 (SynthJson (Some ''SGk='') ''mp3''),
       AudioEvent 0 Ended]) mounted) =
       Some (3000, \<lparr>r_isRecording = False, r_isProcessing = False, r_autoMode = True\<rparr>)
   \<and> autoMode (run webm_runtime
     (auto_cycle @
      [ClickAutoMode, Speak, SynthesisResponse 0 (SynthJson (Some ''SGk='') ''mp3''),
       AudioEvent 0 Ended, Elapse 3000, AutoListenTimeout NoFault]) mounted) = False
   \<and> speechJobs (run webm_runtime
     (auto_cycle @
      [ClickAutoMode, Speak, SynthesisResponse 0 (SynthJson (Some ''SGk='') ''mp3''),
       AudioEvent 0 Ended, Elapse 3000, AutoListenTimeout NoFault]) mounted) = [Resolved]
   \<and> map rec_state (recorders (run webm_runtime
     (auto_cycle @
      [ClickAutoMode, Speak, SynthesisResponse 0 (SynthJson (Some ''SGk='') ''mp3''),
       AudioEvent 0 Ended, Elapse 3000, AutoListenTimeout NoFault]) mounted)) =
       [Inactive, Recording]
   \<and> autoMode (run webm_runtime
     [ClickAutoMode, ClickRecord NoFault, ClickAutoMode,
      DataAvailable 0 (replicate 200 CHR ''a''), ClickRecord NoFault, StopEvent 0,
      TranscribeResponse 0 (Json (Some ''hello''))] mounted) = False
   \<and> autoListenTimeoutRef (run webm_runtime
     [ClickAutoMode, ClickRecord NoFault, ClickAutoMode,
      DataAvailable 0 (replicate 200 CHR ''a''), ClickRecord NoFault, StopEvent 0,
      TranscribeResponse 0 (Json (Some ''hello''))] mounted) =
       Some (3000, \<lparr>r_isRecording = False, r_isProcessing = False, r_autoMode = True\<rparr>)
   \<and> map rec_state (recorders (run webm_runtime
     [ClickAutoMode, ClickRecord NoFault, ClickAutoMode,
      DataAvailable 0 (replicate 200 CHR ''a''), ClickRecord NoFault, StopEvent 0,
      TranscribeResponse 0 (Json (Some ''hello'')), Elapse 3000, AutoListenTimeout NoFault]
     mounted)) = [Inactive, Recording]"
  by (simp add: run_def sample_defs auto_cycle_def handler_defs trim_def isWhiteSpace_def Let_def)

section \<open>Re-arming and playback\<close>

text \<open>
  C1. \<^verbatim>\<open>scheduleAutoListening\<close> is called from \<^verbatim>\<open>processRecording\<close>, when the
  transcription is done, and the timeout is due 3000 ms after that moment; nothing
  connects it to the playback of the reply. In this run auto-listening is on, a capture
  is transcribed at time 0 and the timeout is set for 3000. The reply is synthesized
  from 1000 on and starts playing at 1500. At 3000 the timeout fires and a new recording
  starts while the reply is still playing: the re-arm comes before the playback has
  ended, not 3 seconds after it.
\<close>

theorem rearm_while_reply_plays:
  "autoListenTimeoutRef (run webm_runtime auto_cycle mounted) =
     Some (3000, \<lparr>r_isRecording = False, r_isProcessing = False, r_autoMode = True\<rparr>)
   \<and> now (run webm_runtime
        (auto_cycle @
         [Elapse 1000, Speak, Elapse 500, SynthesisResponse 0 (SynthJson (Some ''SGk='') ''mp3''),
          Elapse 1500, AutoListenTimeout NoFault]) mounted) = 3000
   \<and> speechJobs (run webm_runtime
        (auto_cycle @
         [Elapse 1000, Speak, Elapse 500, SynthesisResponse 0 (SynthJson (Some ''SGk='') ''mp3''),
          Elapse 1500, AutoListenTimeout NoFault]) mounted) = [Playing]
   \<and> map rec_state (recorders (run webm_runtime
        (auto_cycle @
         [Elapse 1000, Speak, Elapse 500, SynthesisResponse 0 (SynthJson (Some ''SGk='') ''mp3''),
          Elapse 1500, AutoListenTimeout NoFault]) mounted)) = [Inactive, Recording]
   \<and> isRecording (run webm_runtime
        (auto_cycle @
         [Elapse 1000, Speak, Elapse 500, SynthesisResponse 0 (SynthJson (Some ''SGk='') ''mp3''),
          Elapse 1500, AutoListenTimeout NoFault]) mounted)"
  by (simp add: run_def sample_defs auto_cycle_def handler_defs trim_def isWhiteSpace_def Let_def)

section \<open>The promise of speaking\<close>

text \<open>
  C4. \<^verbatim>\<open>synthesizeAndPlayVoice\<close> returns the promise of \<^verbatim>\<open>playAudioFromBase64\<close> from
  inside its \<^verbatim>\<open>try\<close> without awaiting it, so its \<^verbatim>\<open>catch\<close> does not see that
  promise reject. When the synthesis succeeds and the audio element then fires
  \<^verbatim>\<open>error\<close>, or when the audio data is not base64, the promise of speaking is rejected.
\<close>

theorem speak_rejects:
  "speechJobs (run webm_runtime
     [Speak, SynthesisResponse 0 (SynthJson (Some ''SGk='') ''mp3''),
      AudioEvent 0 (ErrorEvent ''MEDIA_ERR_DECODE'')] mounted) = [Rejected ''MEDIA_ERR_DECODE'']
   \<and> speechJobs (run webm_runtime
     [Speak, SynthesisResponse 0 (SynthJson (Some ''%%%'') ''mp3'')] mounted) =
       [Rejected ''InvalidCharacterError'']"
  by (simp add: run_def sample_defs handler_defs Let_def)

section \<open>Two recordings at once\<close>

text \<open>
  C9. The timeout callback tests the \<^verbatim>\<open>isRecording\<close> of the render that scheduled it,
  which is false, and calls that render's \<^verbatim>\<open>handleVoiceRecord\<close>, which takes the start
  branch; a manual start does not clear the timeout. In this run auto-listening is on
  and a cycle ends at time 0. The user starts a recording at 1000. At 3000 the timeout
  fires and starts another one: recorders 1 and 2 record at the same time.
\<close>

theorem two_recorders_recording:
  "map rec_state (recorders (run webm_runtime
     (auto_cycle @ [Elapse 1000, ClickRecord NoFault]) mounted)) = [Inactive, Recording]
   \<and> isRecording (run webm_runtime (auto_cycle @ [Elapse 1000, ClickRecord NoFault]) mounted)
   \<and> map rec_state (recorders (run webm_runtime
     (auto_cycle @ [Elapse 1000, ClickRecord NoFault, Elapse 2000, AutoListenTimeout NoFault])
     mounted)) = [Inactive, Recording, Recording]"
  by (simp add: run_def sample_defs auto_cycle_def handler_defs trim_def isWhiteSpace_def Let_def)


end
